theory Spec2Isabelle
  imports Complex_Main
begin

section \<open>JavaScript values used by the accessory\<close>

text \<open>
  The accessory is a TypeScript class. Command codes are JavaScript numbers; every entry
  of the \<open>COMMANDS\<close> table is an integer, so a numeric command code is an \<open>int\<close>.
  At run time \<open>sendCommand\<close> can also receive \<open>undefined\<close> (an array read out of
  range) or, from an untyped caller, a value that is not a number.
\<close>

datatype jsval = Undefined | Num int | Str string | Bool bool | Null

text \<open>
  Characteristic values and the result of scaling them are JavaScript numbers that need
  not be integers: a finite number is a rational here, beside the three special values.
\<close>

datatype jsnum = NaN | PosInf | NegInf | Fin rat

section \<open>String primitives\<close>

text \<open>\<open>Number.prototype.toString(2)\<close> on an integer: binary digits, most significant
  first, no leading zeros, a minus sign for a negative number.\<close>

definition digit :: "nat \<Rightarrow> char" where
  "digit d = (if d = 0 then CHR ''0'' else CHR ''1'')"

fun toString2_nat :: "nat \<Rightarrow> string" where
  "toString2_nat n =
     (if n < 2 then [digit n] else toString2_nat (n div 2) @ [digit (n mod 2)])"

declare toString2_nat.simps [simp del]

definition toString2 :: "int \<Rightarrow> string" where
  "toString2 i =
     (if i < 0 then CHR ''-'' # toString2_nat (nat (- i)) else toString2_nat (nat i))"

text \<open>\<open>String.prototype.padStart(w, c)\<close> with a one-character pad string: a string
  that is already \<open>w\<close> long or longer is returned as it is.\<close>

definition padStart :: "nat \<Rightarrow> char \<Rightarrow> string \<Rightarrow> string" where
  "padStart w c s = (if w \<le> length s then s else replicate (w - length s) c @ s)"

text \<open>\<open>s.replace(/c/g, r)\<close>: every occurrence of the character \<open>c\<close> becomes the
  string \<open>r\<close>, in one pass from left to right.\<close>

definition replaceAll :: "char \<Rightarrow> string \<Rightarrow> string \<Rightarrow> string" where
  "replaceAll c r s = concat (map (\<lambda>x. if x = c then r else [x]) s)"

section \<open>Building the target URL (the body of \<open>sendCommand\<close>)\<close>

text \<open>The 10-bit encoding of a command code, which the source writes twice:
  \<open>command.toString(2).padStart(10, "0")\<close>.\<close>

definition encode10 :: "int \<Rightarrow> string" where
  "encode10 v = padStart 10 (CHR ''0'') (toString2 v)"

text \<open>
  The three template literals of \<open>sendCommand\<close> and the URL they are put into. The
  two \<open>replace\<close> calls of each block run one after the other, in the source's order.
\<close>

definition room :: "string \<Rightarrow> string" where
  "room addr =
     ''A0'' @ replaceAll (CHR ''1'') ''A0''
               (replaceAll (CHR ''0'') ''82'' (padStart 40 (CHR ''0'') addr)) @ ''82''"

definition rfrawCommand :: "int \<Rightarrow> string" where
  "rfrawCommand c =
     ''82'' @ replaceAll (CHR ''1'') ''A0''
               (replaceAll (CHR ''0'') ''82'' (padStart 10 (CHR ''0'') (toString2 c)))
       @ ''A0''"

definition rfrawInverseCommand :: "int \<Rightarrow> string" where
  "rfrawInverseCommand c =
     ''A0'' @ replaceAll (CHR ''0'') ''A0''
               (replaceAll (CHR ''1'') ''82'' (padStart 10 (CHR ''0'') (toString2 c)))
       @ ''83''"

definition target :: "string \<Rightarrow> string \<Rightarrow> int \<Rightarrow> string" where
  "target host addr c =
     ''http://'' @ host
       @ ''/cm?cmnd=rfraw%20AAB0580403018813E803106510808080808080808080808081''
       @ room addr @ rfrawCommand c @ rfrawInverseCommand c @ ''55''"

section \<open>The accessory: state, queue and dispatcher\<close>

record Command =
  command :: int
  targetUrl :: string

text \<open>How the promise returned by \<open>got(target)\<close> settles: with a response body or
  with an error.\<close>

datatype outcome = Fulfilled string | Rejected string

text \<open>The calls to the logger, one constructor for each message of the source.\<close>

datatype log_entry =
    WarnNoBridge
  | WarnNoRemote
  | InfoInitialized
  | InfoSetFanSpeed jsnum
  | InfoSetBrightness jsnum
  | InfoSendCommand int
  | InfoQueued int string
  | InfoRunResponse int string string
  | WarnRunError int string string
  | InfoTestMode int string

text \<open>The callbacks handed to \<open>setTimeout\<close> by the two SET handlers.\<close>

datatype timer = RevertFanSpeed | RevertBrightness

text \<open>The fields of the accessory configuration that the constructor reads; a field that
  the configuration file leaves out is \<open>None\<close>.\<close>

record config =
  cfg_verbose :: "bool option"
  cfg_rfbridge :: "string option"
  cfg_remote :: "string option"

text \<open>
  The fields of the class, and beside them what the environment sees of it: \<open>sent\<close>
  lists the URL of every call \<open>got(target)\<close> made so far, \<open>inFlight\<close> holds the
  calls whose promise has not settled yet, \<open>logged\<close> the log, \<open>timers\<close> the
  scheduled timeouts.
\<close>

record accessory =
  verbose :: bool
  rfbridge :: string
  remote :: string
  fanOn :: bool
  fanSpeed :: jsnum
  lightOn :: bool
  lightBrightness :: jsnum
  pendingCommand :: bool
  commandQueue :: "Command list"
  sent :: "string list"
  inFlight :: "Command list"
  logged :: "log_entry list"
  timers :: "timer list"

text \<open>\<open>config.x || "test"\<close>: an absent field and the empty string are both falsy.\<close>

definition orTest :: "string option \<Rightarrow> string" where
  "orTest f = (case f of None \<Rightarrow> ''test'' | Some v \<Rightarrow> if v = [] then ''test'' else v)"

definition falsy :: "string option \<Rightarrow> bool" where
  "falsy f = (case f of None \<Rightarrow> True | Some v \<Rightarrow> v = [])"

definition constructor :: "config \<Rightarrow> accessory" where
  "constructor cfg =
     \<lparr> verbose = (case cfg_verbose cfg of None \<Rightarrow> False | Some b \<Rightarrow> b),
       rfbridge = orTest (cfg_rfbridge cfg),
       remote = orTest (cfg_remote cfg),
       fanOn = False,
       fanSpeed = Fin 1,
       lightOn = False,
       lightBrightness = Fin 8,
       pendingCommand = False,
       commandQueue = [],
       sent = [],
       inFlight = [],
       logged = (if falsy (cfg_rfbridge cfg) then [WarnNoBridge] else [])
                  @ (if falsy (cfg_remote cfg) then [WarnNoRemote] else [])
                  @ [InfoInitialized],
       timers = [] \<rparr>"

definition testMode :: "accessory \<Rightarrow> bool" where
  "testMode s = (rfbridge s = ''test'' \<or> remote s = ''test'')"

text \<open>
  \<open>runNextCommand\<close>: \<open>Array.prototype.pop\<close> takes the last element, and gives
  \<open>undefined\<close> on an empty array, which the test \<open>if(nextCommand)\<close> catches. The
  call \<open>got(target)\<close> starts a request; its handlers run later, see \<open>settle\<close>.
\<close>

definition runNextCommand :: "accessory \<Rightarrow> accessory" where
  "runNextCommand s =
     (if \<not> pendingCommand s then
        (if commandQueue s = [] then s
         else
           let nextCommand = last (commandQueue s);
               s1 = s\<lparr>commandQueue := butlast (commandQueue s)\<rparr>
           in if \<not> (rfbridge s1 = ''test'' \<or> remote s1 = ''test'') then
                s1\<lparr>pendingCommand := True,
                   sent := sent s1 @ [targetUrl nextCommand],
                   inFlight := inFlight s1 @ [nextCommand]\<rparr>
              else
                s1\<lparr>logged := logged s1
                     @ [InfoTestMode (command nextCommand) (targetUrl nextCommand)]\<rparr>)
      else s)"

definition addCommand :: "int \<Rightarrow> string \<Rightarrow> accessory \<Rightarrow> accessory" where
  "addCommand c u s =
     runNextCommand
       (s\<lparr>commandQueue := commandQueue s @ [\<lparr>command = c, targetUrl = u\<rparr>],
          logged := logged s @ [InfoQueued c u]\<rparr>)"

text \<open>
  \<open>sendCommand(command: number = -1)\<close>: the default value replaces an argument that
  is \<open>undefined\<close> before the body runs.
\<close>

definition sendCommand :: "jsval \<Rightarrow> accessory \<Rightarrow> accessory" where
  "sendCommand arg s =
     (let cmd = (case arg of Undefined \<Rightarrow> Num (- 1) | _ \<Rightarrow> arg)
      in case cmd of
           Num c \<Rightarrow>
             if c = - 1 then s
             else
               let s1 = (if verbose s then s\<lparr>logged := logged s @ [InfoSendCommand c]\<rparr> else s)
               in addCommand c (target (rfbridge s) (remote s) c) s1
         | _ \<Rightarrow> s)"

text \<open>
  The promise of the \<open>i\<close>-th outstanding request settles: the \<open>then\<close> handler logs the
  response when \<open>verbose\<close> is set, the \<open>catch\<close> handler logs the error, and the
  \<open>finally\<close> handler clears the flag and calls \<open>runNextCommand\<close>. The three run as
  consecutive microtasks, so nothing else runs in between. No request \<open>i\<close>: nothing
  settles.
\<close>

definition settle :: "nat \<Rightarrow> outcome \<Rightarrow> accessory \<Rightarrow> accessory" where
  "settle i out s =
     (if i < length (inFlight s) then
        let req = inFlight s ! i;
            s1 = s\<lparr>inFlight := take i (inFlight s) @ drop (Suc i) (inFlight s)\<rparr>;
            s2 = (case out of
                    Fulfilled body \<Rightarrow>
                      if verbose s1 then
                        s1\<lparr>logged := logged s1
                             @ [InfoRunResponse (command req) (targetUrl req) body]\<rparr>
                      else s1
                  | Rejected err \<Rightarrow>
                      s1\<lparr>logged := logged s1
                           @ [WarnRunError (command req) (targetUrl req) err]\<rparr>)
        in runNextCommand (s2\<lparr>pendingCommand := False\<rparr>)
      else s)"

text \<open>What can happen to an accessory, and a run of such events from a state.\<close>

datatype event =
    SendCommand jsval
  | AddCommand int string
  | RunNextCommand
  | Settle nat outcome

fun step :: "accessory \<Rightarrow> event \<Rightarrow> accessory" where
  "step s (SendCommand v) = sendCommand v s"
| "step s (AddCommand c u) = addCommand c u s"
| "step s RunNextCommand = runNextCommand s"
| "step s (Settle i out) = settle i out s"

definition run :: "event list \<Rightarrow> accessory \<Rightarrow> accessory" where
  "run evs s = foldl step s evs"

section \<open>The SET handlers of RotationSpeed and Brightness\<close>

definition FAN_OFF :: int where "FAN_OFF = 98"
definition FAN_SPEED1 :: int where "FAN_SPEED1 = 4"
definition FAN_SPEED2 :: int where "FAN_SPEED2 = 32"
definition FAN_SPEED3 :: int where "FAN_SPEED3 = 64"
definition LIGHT_OFF :: int where "LIGHT_OFF = 266"
definition LIGHT_BRIGHTNESS1 :: int where "LIGHT_BRIGHTNESS1 = 10"
definition LIGHT_BRIGHTNESS2 :: int where "LIGHT_BRIGHTNESS2 = 11"
definition LIGHT_BRIGHTNESS3 :: int where "LIGHT_BRIGHTNESS3 = 12"
definition LIGHT_BRIGHTNESS4 :: int where "LIGHT_BRIGHTNESS4 = 13"
definition LIGHT_BRIGHTNESS5 :: int where "LIGHT_BRIGHTNESS5 = 14"
definition LIGHT_BRIGHTNESS6 :: int where "LIGHT_BRIGHTNESS6 = 15"
definition LIGHT_BRIGHTNESS7 :: int where "LIGHT_BRIGHTNESS7 = 72"
definition LIGHT_BRIGHTNESS8 :: int where "LIGHT_BRIGHTNESS8 = 73"

definition fanCommands :: "int list" where
  "fanCommands = [FAN_OFF, FAN_SPEED1, FAN_SPEED2, FAN_SPEED3]"

definition lightCommands :: "int list" where
  "lightCommands =
     [LIGHT_OFF, LIGHT_BRIGHTNESS1, LIGHT_BRIGHTNESS2, LIGHT_BRIGHTNESS3, LIGHT_BRIGHTNESS4,
      LIGHT_BRIGHTNESS5, LIGHT_BRIGHTNESS6, LIGHT_BRIGHTNESS7, LIGHT_BRIGHTNESS8]"

text \<open>
  \<open>commands[x]\<close> for a number \<open>x\<close>: the array has an element under the key of \<open>x\<close>
  only when \<open>x\<close> is an integer from 0 up to the length; every other read gives
  \<open>undefined\<close>.
\<close>

definition isIndex :: "nat \<Rightarrow> jsnum \<Rightarrow> bool" where
  "isIndex n x =
     (case x of
        Fin q \<Rightarrow> q = of_int \<lfloor>q\<rfloor> \<and> 0 \<le> q \<and> \<lfloor>q\<rfloor> < int n
      | _ \<Rightarrow> False)"

definition arrayGet :: "int list \<Rightarrow> jsnum \<Rightarrow> jsval" where
  "arrayGet xs x =
     (case x of
        Fin q \<Rightarrow> if isIndex (length xs) x then Num (xs ! nat \<lfloor>q\<rfloor>) else Undefined
      | _ \<Rightarrow> Undefined)"

definition fanStep :: jsnum where
  "fanStep = Fin (3333 / 100)"

text \<open>
  The division of two JavaScript numbers rounds as IEEE 754 doubles do; the handlers take
  it as the parameter \<open>dv\<close>, so what is proved of them holds for whatever that
  division returns. \<open>ratDiv\<close> is the exact division, used to run the handlers.
\<close>

definition ratDiv :: "jsnum \<Rightarrow> jsnum \<Rightarrow> jsnum" where
  "ratDiv a b =
     (case (a, b) of
        (Fin x, Fin y) \<Rightarrow>
          if y = 0 then (if x = 0 then NaN else if 0 < x then PosInf else NegInf)
          else Fin (x / y)
      | (Fin x, _) \<Rightarrow> (if b = NaN then NaN else Fin 0)
      | (NaN, _) \<Rightarrow> NaN
      | (PosInf, Fin y) \<Rightarrow> if 0 \<le> y then PosInf else NegInf
      | (NegInf, Fin y) \<Rightarrow> if 0 \<le> y then NegInf else PosInf
      | (_, _) \<Rightarrow> NaN)"

definition rotationSpeedSet ::
  "(jsnum \<Rightarrow> jsnum \<Rightarrow> jsnum) \<Rightarrow> jsnum \<Rightarrow> accessory \<Rightarrow> accessory" where
  "rotationSpeedSet dv v s =
     (let newSpeed = dv v fanStep;
          s1 = (if newSpeed = Fin 0 then s\<lparr>timers := timers s @ [RevertFanSpeed]\<rparr>
                else s\<lparr>fanSpeed := newSpeed,
                       logged := logged s @ [InfoSetFanSpeed newSpeed]\<rparr>)
      in sendCommand (arrayGet fanCommands newSpeed) s1)"

definition brightnessSet ::
  "(jsnum \<Rightarrow> jsnum \<Rightarrow> jsnum) \<Rightarrow> jsnum \<Rightarrow> accessory \<Rightarrow> accessory" where
  "brightnessSet dv v s =
     (let newBrightness = dv v (Fin 12);
          s1 = (if newBrightness = Fin 0 then s\<lparr>timers := timers s @ [RevertBrightness]\<rparr>
                else s\<lparr>lightBrightness := newBrightness,
                       logged := logged s @ [InfoSetBrightness newBrightness]\<rparr>)
      in sendCommand (arrayGet lightCommands newBrightness) s1)"

section \<open>The words of the specification\<close>

text \<open>Reading a digit string as a base-2 number, most significant digit first.\<close>

definition fromBinary :: "string \<Rightarrow> nat" where
  "fromBinary s = foldl (\<lambda>a ch. 2 * a + (if ch = CHR ''1'' then 1 else 0)) 0 s"

text \<open>The bitwise complement of a digit string.\<close>

definition complement :: "string \<Rightarrow> string" where
  "complement bits =
     map (\<lambda>ch. if ch = CHR ''0'' then CHR ''1'' else if ch = CHR ''1'' then CHR ''0'' else ch) bits"

text \<open>Substituting a token for each character \<open>0\<close> and \<open>1\<close> at once; any other
  character stays.\<close>

definition substitute :: "string \<Rightarrow> string \<Rightarrow> string \<Rightarrow> string" where
  "substitute zero one s =
     concat (map (\<lambda>ch. if ch = CHR ''0'' then zero else if ch = CHR ''1'' then one else [ch]) s)"

text \<open>The fixed header of the waveform descriptor.\<close>

definition header :: string where
  "header = ''AAB0580403018813E803106510808080808080808080808081''"

section \<open>Invariants and sample configurations\<close>

text \<open>A configuration with a bridge and a remote, one that leaves the bridge out, and a
  busy accessory: one request in flight, two commands queued.\<close>

definition cfg0 :: config where
  "cfg0 = \<lparr>cfg_verbose = None, cfg_rfbridge = Some ''bridge'', cfg_remote = Some ''1010''\<rparr>"

definition cfgTest :: config where
  "cfgTest = \<lparr>cfg_verbose = Some True, cfg_rfbridge = None, cfg_remote = Some ''1010''\<rparr>"

definition busy0 :: accessory where
  "busy0 = run [AddCommand 98 ''A'', AddCommand 4 ''B'', AddCommand 32 ''C''] (constructor cfg0)"

text \<open>What holds of the flag, the queue and the outstanding requests in every state
  reached from a fresh accessory.\<close>

definition single_flight :: "accessory \<Rightarrow> bool" where
  "single_flight s =
     (length (inFlight s) \<le> 1 \<and> (pendingCommand s = (inFlight s \<noteq> []))
      \<and> (pendingCommand s \<or> commandQueue s = []) \<and> (pendingCommand s \<longrightarrow> \<not> testMode s))"

text \<open>The only states reached in test mode.\<close>

definition test_idle :: "accessory \<Rightarrow> bool" where
  "test_idle s =
     (testMode s \<and> \<not> pendingCommand s \<and> commandQueue s = [] \<and> sent s = [] \<and> inFlight s = [])"

section \<open>Auxiliary facts\<close>

lemma toString2_nat_length: "n < 2 ^ k \<Longrightarrow> 0 < k \<Longrightarrow> length (toString2_nat n) \<le> k"
proof (induction n arbitrary: k rule: toString2_nat.induct)
  case (1 n)
  show ?case
  proof (cases "n < 2")
    case True
    then show ?thesis using "1.prems" by (subst toString2_nat.simps) simp
  next
    case False
    then obtain j where k: "k = Suc j" using "1.prems" by (cases k) auto
    have "j > 0" using False "1.prems" k by (cases j) auto
    moreover have "n div 2 < 2 ^ j" using "1.prems" k by auto
    ultimately have "length (toString2_nat (n div 2)) \<le> j" using "1.IH" False by blast
    then show ?thesis using False k by (subst toString2_nat.simps) simp
  qed
qed

lemma fromBinary_snoc:
  "fromBinary (s @ [c]) = 2 * fromBinary s + (if c = CHR ''1'' then 1 else 0)"
  by (simp add: fromBinary_def)

lemma fromBinary_toString2_nat: "fromBinary (toString2_nat n) = n"
proof (induction n rule: toString2_nat.induct)
  case (1 n)
  show ?case
  proof (cases "n < 2")
    case True
    then have "n = 0 \<or> n = 1" by auto
    then show ?thesis by (subst toString2_nat.simps) (auto simp: fromBinary_def digit_def)
  next
    case False
    have unf: "toString2_nat n = toString2_nat (n div 2) @ [digit (n mod 2)]"
      using False by (subst toString2_nat.simps) simp
    have d: "(if digit (n mod 2) = CHR ''1'' then 1 else 0) = n mod 2"
    proof (cases "n mod 2 = 0")
      case True
      then show ?thesis by (simp add: digit_def)
    next
      case False
      then have "n mod 2 = 1" by arith
      then show ?thesis by (simp add: digit_def)
    qed
    have "fromBinary (toString2_nat n) = 2 * (n div 2) + n mod 2"
      using "1.IH" False d by (simp add: unf fromBinary_snoc)
    then show ?thesis by simp
  qed
qed

lemma fromBinary_zeros: "fromBinary (replicate k (CHR ''0'') @ s) = fromBinary s"
proof -
  have "foldl (\<lambda>a ch. 2 * a + (if ch = CHR ''1'' then 1 else 0)) (0::nat)
          (replicate k (CHR ''0'')) = 0"
    by (induction k) auto
  then show ?thesis by (simp add: fromBinary_def)
qed

lemma length_padStart: "length (padStart w c s) = max w (length s)"
  by (simp add: padStart_def)

lemma fromBinary_padStart: "fromBinary (padStart w (CHR ''0'') s) = fromBinary s"
  by (simp add: padStart_def fromBinary_zeros)


lemma replace_10: "replaceAll (CHR ''0'') ''A0'' (replaceAll (CHR ''1'') ''82'' s) = substitute ''A0'' ''82'' s"
  by (induction s) (simp_all add: replaceAll_def substitute_def)

lemma substitute_complement: "substitute a b (complement s) = substitute b a s"
  by (induction s) (simp_all add: substitute_def complement_def)

lemma runNextCommand_pending: "pendingCommand s \<Longrightarrow> runNextCommand s = s"
  by (simp add: runNextCommand_def)

lemma runNextCommand_empty: "commandQueue s = [] \<Longrightarrow> runNextCommand s = s"
  by (simp add: runNextCommand_def)

lemma runNextCommand_send:
  "\<not> pendingCommand s \<Longrightarrow> commandQueue s \<noteq> [] \<Longrightarrow> \<not> testMode s \<Longrightarrow>
   runNextCommand s =
     s\<lparr>commandQueue := butlast (commandQueue s), pendingCommand := True,
       sent := sent s @ [targetUrl (last (commandQueue s))],
       inFlight := inFlight s @ [last (commandQueue s)]\<rparr>"
  by (simp add: runNextCommand_def testMode_def Let_def)

lemma runNextCommand_test:
  "\<not> pendingCommand s \<Longrightarrow> commandQueue s \<noteq> [] \<Longrightarrow> testMode s \<Longrightarrow>
   runNextCommand s =
     s\<lparr>commandQueue := butlast (commandQueue s),
       logged := logged s @ [InfoTestMode (command (last (commandQueue s)))
                               (targetUrl (last (commandQueue s)))]\<rparr>"
  by (simp add: runNextCommand_def testMode_def Let_def)

lemma runNextCommand_mode [simp]:
  "rfbridge (runNextCommand s) = rfbridge s" "remote (runNextCommand s) = remote s"
  by (simp_all add: runNextCommand_def Let_def)

lemma addCommand_mode [simp]:
  "rfbridge (addCommand c u s) = rfbridge s" "remote (addCommand c u s) = remote s"
  by (simp_all add: addCommand_def)


lemma sendCommand_mode [simp]:
  "rfbridge (sendCommand v s) = rfbridge s" "remote (sendCommand v s) = remote s"
  by (simp_all add: sendCommand_def Let_def split: jsval.splits)

lemma settle_mode [simp]:
  "rfbridge (settle i out s) = rfbridge s" "remote (settle i out s) = remote s"
  by (simp_all add: settle_def Let_def split: outcome.splits)

lemma step_mode [simp]:
  "rfbridge (step s e) = rfbridge s" "remote (step s e) = remote s"
  by (cases e; simp)+

lemma run_mode [simp]:
  "rfbridge (run evs s) = rfbridge s" "remote (run evs s) = remote s"
  unfolding run_def by (induction evs arbitrary: s; simp)+

lemma single_flight_runNextCommand: "single_flight s \<Longrightarrow> single_flight (runNextCommand s)"
  by (auto simp: single_flight_def runNextCommand_def testMode_def Let_def)

lemma single_flight_logged: "single_flight (s\<lparr>logged := l\<rparr>) = single_flight s"
  by (simp add: single_flight_def testMode_def)

lemma single_flight_addCommand: "single_flight s \<Longrightarrow> single_flight (addCommand c u s)"
  by (auto simp: single_flight_def addCommand_def runNextCommand_def testMode_def Let_def)

lemma single_flight_sendCommand: "single_flight s \<Longrightarrow> single_flight (sendCommand v s)"
  by (auto simp: sendCommand_def Let_def single_flight_addCommand single_flight_logged
      split: jsval.splits)

lemma single_flight_settle: "single_flight s \<Longrightarrow> single_flight (settle i out s)"
  by (auto simp: single_flight_def settle_def runNextCommand_def testMode_def Let_def
      split: outcome.splits)

lemma single_flight_step: "single_flight s \<Longrightarrow> single_flight (step s e)"
  by (cases e)
    (simp_all add: single_flight_runNextCommand single_flight_addCommand
      single_flight_sendCommand single_flight_settle)

lemma single_flight_run: "single_flight s \<Longrightarrow> single_flight (run evs s)"
  unfolding run_def by (induction evs arbitrary: s) (simp_all add: single_flight_step)

lemma single_flight_constructor: "single_flight (constructor cfg)"
  by (simp add: single_flight_def constructor_def)

lemma settle_last:
  "inFlight s = [r] \<Longrightarrow> commandQueue s = [] \<Longrightarrow>
   pendingCommand (settle 0 out s) = False \<and> inFlight (settle 0 out s) = []
   \<and> sent (settle 0 out s) = sent s \<and> commandQueue (settle 0 out s) = []"
  by (simp add: settle_def runNextCommand_def Let_def split: outcome.splits)

lemma settle_next:
  "inFlight s = [r] \<Longrightarrow> commandQueue s \<noteq> [] \<Longrightarrow> \<not> testMode s \<Longrightarrow>
   pendingCommand (settle 0 out s) = True \<and> inFlight (settle 0 out s) = [last (commandQueue s)]
   \<and> sent (settle 0 out s) = sent s @ [targetUrl (last (commandQueue s))]
   \<and> commandQueue (settle 0 out s) = butlast (commandQueue s)"
  by (simp add: settle_def runNextCommand_def testMode_def Let_def split: outcome.splits)

lemma testMode_settle [simp]: "testMode (settle i out s) = testMode s"
  by (simp add: testMode_def)

lemma run_Cons: "run (e # evs) s = run evs (step s e)"
  by (simp add: run_def)

lemma run_Nil: "run [] s = s"
  by (simp add: run_def)

lemma drain_all:
  "inFlight s = [r] \<Longrightarrow> \<not> testMode s \<Longrightarrow> length outs = Suc (length (commandQueue s)) \<Longrightarrow>
   sent (run (map (Settle 0) outs) s) = sent s @ map targetUrl (rev (commandQueue s))
   \<and> commandQueue (run (map (Settle 0) outs) s) = []
   \<and> pendingCommand (run (map (Settle 0) outs) s) = False
   \<and> inFlight (run (map (Settle 0) outs) s) = []"
proof (induction outs arbitrary: s r)
  case Nil
  then show ?case by simp
next
  case (Cons out outs)
  show ?case
  proof (cases "commandQueue s = []")
    case True
    then have "outs = []" using Cons.prems by simp
    then show ?thesis
      using settle_last [OF Cons.prems(1) True, of out] True by (simp add: run_Cons run_Nil)
  next
    case False
    note nx = settle_next [OF Cons.prems(1) False Cons.prems(2), of out]
    have len: "length outs = Suc (length (commandQueue (settle 0 out s)))"
      using Cons.prems(3) False nx by simp
    have tm: "\<not> testMode (settle 0 out s)" using Cons.prems(2) by simp
    have infl: "inFlight (settle 0 out s) = [last (commandQueue s)]" using nx by simp
    note ih = Cons.IH [OF infl tm len]
    have q: "targetUrl (last (commandQueue s)) # map targetUrl (rev (butlast (commandQueue s)))
        = map targetUrl (rev (commandQueue s))"
      using False by (cases "commandQueue s" rule: rev_cases) simp_all
    show ?thesis using ih nx q by (simp add: run_Cons)
  qed
qed

lemma addCommand_idle:
  "\<not> pendingCommand s \<Longrightarrow> commandQueue s = [] \<Longrightarrow> \<not> testMode s \<Longrightarrow>
   pendingCommand (addCommand c u s) \<and> commandQueue (addCommand c u s) = []
   \<and> sent (addCommand c u s) = sent s @ [u]
   \<and> inFlight (addCommand c u s) = inFlight s @ [\<lparr>command = c, targetUrl = u\<rparr>]"
  by (simp add: addCommand_def runNextCommand_def testMode_def Let_def)

lemma addCommand_busy:
  "pendingCommand s \<Longrightarrow>
   pendingCommand (addCommand c u s)
   \<and> commandQueue (addCommand c u s) = commandQueue s @ [\<lparr>command = c, targetUrl = u\<rparr>]
   \<and> sent (addCommand c u s) = sent s \<and> inFlight (addCommand c u s) = inFlight s"
  by (simp add: addCommand_def runNextCommand_def)

lemma testMode_addCommand [simp]: "testMode (addCommand c u s) = testMode s"
  by (simp add: testMode_def)

lemma test_idle_runNextCommand: "test_idle s \<Longrightarrow> runNextCommand s = s"
  by (simp add: test_idle_def runNextCommand_def)

lemma test_idle_addCommand: "test_idle s \<Longrightarrow> test_idle (addCommand c u s)"
  by (auto simp: test_idle_def addCommand_def runNextCommand_def testMode_def Let_def)

lemma test_idle_logged: "test_idle (s\<lparr>logged := l\<rparr>) = test_idle s"
  by (simp add: test_idle_def testMode_def)

lemma test_idle_sendCommand: "test_idle s \<Longrightarrow> test_idle (sendCommand v s)"
  by (auto simp: sendCommand_def Let_def test_idle_addCommand test_idle_logged
      split: jsval.splits)

lemma test_idle_settle: "test_idle s \<Longrightarrow> settle i out s = s"
  by (simp add: test_idle_def settle_def)

lemma test_idle_step: "test_idle s \<Longrightarrow> test_idle (step s e)"
  by (cases e)
    (simp_all add: test_idle_runNextCommand test_idle_addCommand test_idle_sendCommand
      test_idle_settle)

lemma test_idle_run: "test_idle s \<Longrightarrow> test_idle (run evs s)"
  unfolding run_def by (induction evs arbitrary: s) (simp_all add: test_idle_step)

lemma arrayGet_Undefined: "\<not> isIndex (length xs) x \<Longrightarrow> arrayGet xs x = Undefined"
  by (cases x) (simp_all add: arrayGet_def)

lemma header_length: "length header = 50"
  by (simp add: header_def)

section \<open>The properties of the specification\<close>

text \<open>
  C1. At most one transmission is in flight. In every state \<open>s\<close> that a sequence of
  events reaches from a freshly constructed accessory, at most one request is outstanding;
  while one is, neither \<open>addCommand\<close> nor \<open>sendCommand\<close> nor \<open>runNextCommand\<close>
  starts another call of the transport; and two drain attempts in a row start at most one.
\<close>

theorem single_flight_invariant:
  "s = run evs (constructor cfg) \<Longrightarrow>
     length (inFlight s) \<le> 1
     \<and> (inFlight s \<noteq> [] \<longrightarrow>
          sent (addCommand c u s) = sent s \<and> inFlight (addCommand c u s) = inFlight s
          \<and> sent (sendCommand v s) = sent s \<and> inFlight (sendCommand v s) = inFlight s
          \<and> sent (runNextCommand s) = sent s \<and> inFlight (runNextCommand s) = inFlight s)
     \<and> length (sent (runNextCommand (runNextCommand s))) \<le> Suc (length (sent s))
     \<and> length (inFlight (runNextCommand (runNextCommand s))) \<le> 1"
proof -
  assume s: "s = run evs (constructor cfg)"
  have sf: "single_flight s"
    unfolding s by (rule single_flight_run) (rule single_flight_constructor)
  have one: "length (inFlight s) \<le> 1" using sf by (simp add: single_flight_def)
  have busy: "sent (addCommand c u s) = sent s \<and> inFlight (addCommand c u s) = inFlight s
          \<and> sent (sendCommand v s) = sent s \<and> inFlight (sendCommand v s) = inFlight s
          \<and> sent (runNextCommand s) = sent s \<and> inFlight (runNextCommand s) = inFlight s"
    if "inFlight s \<noteq> []"
  proof -
    have p: "pendingCommand s" using sf that by (simp add: single_flight_def)
    then show ?thesis
      by (simp add: addCommand_def sendCommand_def runNextCommand_def Let_def split: jsval.splits)
  qed
  have twice: "runNextCommand (runNextCommand s) = runNextCommand s"
    using sf by (auto simp: single_flight_def runNextCommand_def testMode_def Let_def)
  have "length (sent (runNextCommand s)) \<le> Suc (length (sent s))"
    by (simp add: runNextCommand_def Let_def)
  moreover have "length (inFlight (runNextCommand s)) \<le> 1"
    using single_flight_runNextCommand [OF sf] by (simp add: single_flight_def)
  ultimately show ?thesis using one busy twice by simp
qed

theorem single_flight_invariant_witness:
  "inFlight (run [AddCommand 98 ''A'', AddCommand 4 ''B''] (constructor cfg0)) \<noteq> []
   \<and> sent (addCommand 32 ''C'' (run [AddCommand 98 ''A'', AddCommand 4 ''B''] (constructor cfg0)))
       = [''A'']
   \<and> sent (runNextCommand (run [AddCommand 98 ''A'', AddCommand 4 ''B''] (constructor cfg0)))
       = [''A'']"
proof -
  have h: "inFlight (run [AddCommand 98 ''A'', AddCommand 4 ''B''] (constructor cfg0)) \<noteq> []"
    by code_simp
  have e: "sent (run [AddCommand 98 ''A'', AddCommand 4 ''B''] (constructor cfg0)) = [''A'']"
    by code_simp
  show ?thesis
    using h e single_flight_invariant [OF refl, of "[AddCommand 98 ''A'', AddCommand 4 ''B'']" cfg0 32 "''C''" Undefined]
    by simp
qed



text \<open>
  C3, as stated, fails: substituting \<open>1\<close> by \<open>82\<close> and \<open>0\<close> by \<open>A0\<close> in
  the complement of the 10-bit string of the command code 98 does not give the block that
  the code builds.
\<close>

theorem inverse_block_claim_counterexample:
  "rfrawInverseCommand 98 \<noteq> ''A0'' @ substitute ''A0'' ''82'' (complement (encode10 98)) @ ''83''"
  by code_simp

text \<open>
  C3, amended. The inverse-command block is \<open>A0\<close>, then the 10-bit binary string of
  the command itself with each \<open>1\<close> replaced by \<open>82\<close> and each \<open>0\<close> by \<open>A0\<close>,
  then \<open>83\<close>. This is the same as applying the substitution of the command block
  (\<open>0\<close> to \<open>82\<close>, \<open>1\<close> to \<open>A0\<close>) to the bitwise complement of that string.
\<close>

theorem inverse_block:
  "rfrawInverseCommand c = ''A0'' @ substitute ''A0'' ''82'' (encode10 c) @ ''83''
   \<and> rfrawInverseCommand c = ''A0'' @ substitute ''82'' ''A0'' (complement (encode10 c)) @ ''83''"
  by (simp add: rfrawInverseCommand_def encode10_def replace_10 substitute_complement)

text \<open>
  C4, as stated, fails: with \<open>A\<close>, \<open>B\<close>, \<open>C\<close> enqueued in this order on an idle
  accessory and every request left to complete before the next one starts, the requests
  do not go out in the order \<open>C\<close>, \<open>B\<close>, \<open>A\<close>.
\<close>

theorem lifo_order_claim_counterexample:
  "sent (run [AddCommand 98 ''A'', AddCommand 4 ''B'', AddCommand 32 ''C'',
              Settle 0 (Fulfilled ''ok''), Settle 0 (Fulfilled ''ok''), Settle 0 (Fulfilled ''ok'')]
          (constructor cfg0)) \<noteq> [''C'', ''B'', ''A'']"
  by code_simp

text \<open>
  C4, amended. On an idle accessory outside test mode, enqueuing \<open>A\<close>, \<open>B\<close>, \<open>C\<close>
  in this order sends \<open>A\<close> at once, at its own enqueue, and leaves \<open>B\<close> and \<open>C\<close>
  queued; as the requests complete one after the other, the most recently enqueued entry
  that is left goes next, so the order of the requests is \<open>A\<close>, \<open>C\<close>, \<open>B\<close>.
\<close>

theorem dispatch_order:
  "\<not> pendingCommand s \<Longrightarrow> commandQueue s = [] \<Longrightarrow> inFlight s = [] \<Longrightarrow> \<not> testMode s \<Longrightarrow>
   sent (run [AddCommand a ua, AddCommand b ub, AddCommand c uc,
              Settle 0 o1, Settle 0 o2, Settle 0 o3] s) = sent s @ [ua, uc, ub]
   \<and> commandQueue (run [AddCommand a ua, AddCommand b ub, AddCommand c uc] s)
       = [\<lparr>command = b, targetUrl = ub\<rparr>, \<lparr>command = c, targetUrl = uc\<rparr>]
   \<and> sent (run [AddCommand a ua, AddCommand b ub, AddCommand c uc] s) = sent s @ [ua]"
proof -
  assume idle: "\<not> pendingCommand s" "commandQueue s = []" "inFlight s = []" "\<not> testMode s"
  define s1 where "s1 = addCommand a ua s"
  define s2 where "s2 = addCommand b ub s1"
  define s3 where "s3 = addCommand c uc s2"
  have r3: "run [AddCommand a ua, AddCommand b ub, AddCommand c uc] s = s3"
    by (simp add: run_def s1_def s2_def s3_def)
  have r6: "run [AddCommand a ua, AddCommand b ub, AddCommand c uc,
              Settle 0 o1, Settle 0 o2, Settle 0 o3] s = run (map (Settle 0) [o1, o2, o3]) s3"
    by (simp add: run_def s1_def s2_def s3_def)
  have f1: "pendingCommand s1" "commandQueue s1 = []" "sent s1 = sent s @ [ua]"
    "inFlight s1 = [\<lparr>command = a, targetUrl = ua\<rparr>]"
    using addCommand_idle [OF idle(1) idle(2) idle(4), of a ua] idle(3) by (simp_all add: s1_def)
  have f2: "pendingCommand s2" "commandQueue s2 = [\<lparr>command = b, targetUrl = ub\<rparr>]"
    "sent s2 = sent s @ [ua]" "inFlight s2 = [\<lparr>command = a, targetUrl = ua\<rparr>]"
    using addCommand_busy [OF f1(1), of b ub] f1 by (simp_all add: s2_def)
  have f3: "commandQueue s3 = [\<lparr>command = b, targetUrl = ub\<rparr>, \<lparr>command = c, targetUrl = uc\<rparr>]"
    "sent s3 = sent s @ [ua]" "inFlight s3 = [\<lparr>command = a, targetUrl = ua\<rparr>]"
    using addCommand_busy [OF f2(1), of c uc] f2 by (simp_all add: s3_def)
  have tm: "\<not> testMode s3" using idle(4) by (simp add: s1_def s2_def s3_def)
  have len: "length [o1, o2, o3] = Suc (length (commandQueue s3))" by (simp add: f3)
  have "sent (run (map (Settle 0) [o1, o2, o3]) s3) = sent s3 @ map targetUrl (rev (commandQueue s3))"
    using drain_all [OF f3(3) tm len] by (rule conjunct1)
  then have "sent (run (map (Settle 0) [o1, o2, o3]) s3) = sent s @ [ua, uc, ub]"
    by (simp add: f3)
  then show ?thesis unfolding r3 r6 by (simp add: f3)
qed

theorem dispatch_order_witness:
  "\<not> pendingCommand (constructor cfg0) \<and> commandQueue (constructor cfg0) = []
   \<and> inFlight (constructor cfg0) = [] \<and> \<not> testMode (constructor cfg0)
   \<and> sent (run [AddCommand 98 ''A'', AddCommand 4 ''B'', AddCommand 32 ''C'',
                Settle 0 (Fulfilled ''ok''), Settle 0 (Rejected ''timeout''),
                Settle 0 (Fulfilled ''ok'')] (constructor cfg0)) = [''A'', ''C'', ''B'']"
proof -
  have h: "\<not> pendingCommand (constructor cfg0)" "commandQueue (constructor cfg0) = []"
    "inFlight (constructor cfg0) = []" "\<not> testMode (constructor cfg0)"
    "sent (constructor cfg0) = []"
    by (simp_all add: constructor_def cfg0_def orTest_def testMode_def)
  note r = conjunct1 [OF dispatch_order [OF h(1) h(2) h(3) h(4), of 98 "''A''" 4 "''B''" 32 "''C''"
        "Fulfilled ''ok''" "Rejected ''timeout''" "Fulfilled ''ok''"]]
  have r': "sent (run [AddCommand 98 ''A'', AddCommand 4 ''B'', AddCommand 32 ''C'',
                Settle 0 (Fulfilled ''ok''), Settle 0 (Rejected ''timeout''),
                Settle 0 (Fulfilled ''ok'')] (constructor cfg0)) = [''A'', ''C'', ''B'']"
    unfolding r h(5) by simp
  show ?thesis using h(1) h(2) h(3) h(4) r' by blast
qed

text \<open>
  C5. For every integer \<open>v\<close> from 0 to 1023, the 10-bit encoding of \<open>v\<close> has
  exactly 10 characters and, read as a base-2 number, gives \<open>v\<close> back.
\<close>

theorem encode10_length_roundtrip:
  "0 \<le> v \<Longrightarrow> v \<le> 1023 \<Longrightarrow> length (encode10 v) = 10 \<and> int (fromBinary (encode10 v)) = v"
proof -
  assume v: "0 \<le> v" "v \<le> 1023"
  have "nat v < 2 ^ 10" using v by simp
  then have "length (toString2_nat (nat v)) \<le> 10" by (rule toString2_nat_length) simp
  then have "length (encode10 v) = 10"
    using v by (simp add: encode10_def toString2_def length_padStart)
  moreover have "int (fromBinary (encode10 v)) = v"
    using v by (simp add: encode10_def toString2_def fromBinary_padStart fromBinary_toString2_nat)
  ultimately show ?thesis by simp
qed

theorem encode10_length_roundtrip_witness:
  "(0::int) \<le> 98 \<and> (98::int) \<le> 1023 \<and> length (encode10 98) = 10
     \<and> int (fromBinary (encode10 98)) = 98 \<and> encode10 98 = ''0001100010''"
proof -
  have e: "encode10 98 = ''0001100010''" by code_simp
  show ?thesis using encode10_length_roundtrip [of 98] e by simp
qed


text \<open>
  C7. When the request in flight completes, with a response or with an error, the flag is
  released and the next queued entry, if there is one, is sent. A run of completions, each
  of either kind, one more than there are queued entries, sends every queued entry and
  leaves the accessory idle with an empty queue. An error is a value handled by the
  \<open>catch\<close> handler; nothing leaves \<open>settle\<close> but the next state.
\<close>

theorem settle_releases_and_drains:
  "inFlight s = [r] \<Longrightarrow> \<not> testMode s \<Longrightarrow> length outs = Suc (length (commandQueue s)) \<Longrightarrow>
     (if commandQueue s = []
      then pendingCommand (settle 0 out s) = False \<and> sent (settle 0 out s) = sent s
      else sent (settle 0 out s) = sent s @ [targetUrl (last (commandQueue s))]
           \<and> commandQueue (settle 0 out s) = butlast (commandQueue s)
           \<and> inFlight (settle 0 out s) = [last (commandQueue s)])
     \<and> sent (run (map (Settle 0) outs) s) = sent s @ map targetUrl (rev (commandQueue s))
     \<and> commandQueue (run (map (Settle 0) outs) s) = []
     \<and> pendingCommand (run (map (Settle 0) outs) s) = False
     \<and> inFlight (run (map (Settle 0) outs) s) = []"
proof -
  assume a: "inFlight s = [r]" "\<not> testMode s" "length outs = Suc (length (commandQueue s))"
  have one: "(if commandQueue s = []
      then pendingCommand (settle 0 out s) = False \<and> sent (settle 0 out s) = sent s
      else sent (settle 0 out s) = sent s @ [targetUrl (last (commandQueue s))]
           \<and> commandQueue (settle 0 out s) = butlast (commandQueue s)
           \<and> inFlight (settle 0 out s) = [last (commandQueue s)])"
    using settle_last [OF a(1), of out] settle_next [OF a(1) _ a(2), of out] by simp
  show ?thesis using one drain_all [OF a] by simp
qed

theorem settle_releases_and_drains_witness:
  "inFlight busy0 = [\<lparr>command = 98, targetUrl = ''A''\<rparr>] \<and> \<not> testMode busy0
   \<and> length [Rejected ''timeout'', Rejected ''refused'', Fulfilled ''ok'']
       = Suc (length (commandQueue busy0))
   \<and> sent (settle 0 (Rejected ''timeout'') busy0) = [''A'', ''C'']
   \<and> sent (run (map (Settle 0) [Rejected ''timeout'', Rejected ''refused'', Fulfilled ''ok''])
             busy0) = [''A'', ''C'', ''B'']
   \<and> pendingCommand (run (map (Settle 0)
        [Rejected ''timeout'', Rejected ''refused'', Fulfilled ''ok'']) busy0) = False"
proof -
  have h1: "inFlight busy0 = [\<lparr>command = 98, targetUrl = ''A''\<rparr>]" by code_simp
  have h2: "\<not> testMode busy0" by code_simp
  have q: "commandQueue busy0 = [\<lparr>command = 4, targetUrl = ''B''\<rparr>, \<lparr>command = 32, targetUrl = ''C''\<rparr>]"
    by code_simp
  have s: "sent busy0 = [''A'']" by code_simp
  have h3: "length [Rejected ''timeout'', Rejected ''refused'', Fulfilled ''ok'']
       = Suc (length (commandQueue busy0))" using q by simp
  show ?thesis
    using settle_releases_and_drains [OF h1 h2 h3, of "Rejected ''timeout''"] h1 h2 h3 q s
    by simp
qed

text \<open>
  C8. When the bridge host or the device address of the configuration is absent or equal
  to \<open>test\<close>, no sequence of events makes a call of the transport, and the queue is
  empty after each of them: an enqueued command is logged and taken off the queue at once.
\<close>

theorem test_mode_never_sends:
  "cfg_rfbridge cfg = None \<or> cfg_rfbridge cfg = Some ''test''
     \<or> cfg_remote cfg = None \<or> cfg_remote cfg = Some ''test'' \<Longrightarrow>
   s = run evs (constructor cfg) \<Longrightarrow>
     sent s = [] \<and> inFlight s = [] \<and> commandQueue s = []
     \<and> sent (addCommand c u s) = [] \<and> commandQueue (addCommand c u s) = []
     \<and> logged (addCommand c u s) = logged s @ [InfoQueued c u, InfoTestMode c u]
     \<and> sent (sendCommand v s) = [] \<and> commandQueue (sendCommand v s) = []"
proof -
  assume t: "cfg_rfbridge cfg = None \<or> cfg_rfbridge cfg = Some ''test''
     \<or> cfg_remote cfg = None \<or> cfg_remote cfg = Some ''test''"
    and s: "s = run evs (constructor cfg)"
  have "test_idle (constructor cfg)"
    using t by (auto simp: test_idle_def testMode_def constructor_def orTest_def)
  then have ti: "test_idle s" unfolding s by (rule test_idle_run)
  have a: "test_idle (addCommand c u s)" using ti by (rule test_idle_addCommand)
  have b: "test_idle (sendCommand v s)" using ti by (rule test_idle_sendCommand)
  have l: "logged (addCommand c u s) = logged s @ [InfoQueued c u, InfoTestMode c u]"
    using ti by (auto simp: test_idle_def addCommand_def runNextCommand_def testMode_def Let_def)
  show ?thesis using ti a b l by (simp add: test_idle_def)
qed

theorem test_mode_never_sends_witness:
  "cfg_rfbridge cfgTest = None
   \<and> sent (run [SendCommand (Num 98), SendCommand (Num 4), RunNextCommand] (constructor cfgTest)) = []
   \<and> commandQueue (run [SendCommand (Num 98), SendCommand (Num 4), RunNextCommand]
        (constructor cfgTest)) = []
   \<and> commandQueue (addCommand 32 ''C''
        (run [SendCommand (Num 98), SendCommand (Num 4), RunNextCommand] (constructor cfgTest))) = []"
proof -
  have h: "cfg_rfbridge cfgTest = None" by (simp add: cfgTest_def)
  show ?thesis
    using h test_mode_never_sends [OF disjI1 refl, OF h,
        of "[SendCommand (Num 98), SendCommand (Num 4), RunNextCommand]" 32 "''C''" Undefined]
    by simp
qed

text \<open>
  C9. A call of \<open>sendCommand\<close> with the command -1, with \<open>undefined\<close> or with a
  value that is not a number leaves the whole state as it was: nothing is enqueued, nothing
  is sent, and the flag keeps its value.
\<close>

theorem invalid_command_ignored:
  "sendCommand (Num (- 1)) s = s \<and> sendCommand Undefined s = s \<and> sendCommand (Str x) s = s
   \<and> sendCommand (Bool b) s = s \<and> sendCommand Null s = s"
  by (simp add: sendCommand_def)

text \<open>
  C10. When the scaled value of a RotationSpeed or Brightness SET is not an integer index
  of the command table, the table read gives \<open>undefined\<close> and \<open>sendCommand\<close> does
  nothing: queue, flag, sent requests and outstanding requests are unchanged. The default
  value of the parameter turns \<open>undefined\<close> into -1, which the guard rejects.
\<close>

theorem out_of_table_set_is_noop:
  "\<not> isIndex (length fanCommands) (dv v fanStep) \<Longrightarrow>
   \<not> isIndex (length lightCommands) (dv w (Fin 12)) \<Longrightarrow>
     arrayGet fanCommands (dv v fanStep) = Undefined
     \<and> commandQueue (rotationSpeedSet dv v s) = commandQueue s
     \<and> pendingCommand (rotationSpeedSet dv v s) = pendingCommand s
     \<and> sent (rotationSpeedSet dv v s) = sent s
     \<and> inFlight (rotationSpeedSet dv v s) = inFlight s
     \<and> arrayGet lightCommands (dv w (Fin 12)) = Undefined
     \<and> commandQueue (brightnessSet dv w s) = commandQueue s
     \<and> pendingCommand (brightnessSet dv w s) = pendingCommand s
     \<and> sent (brightnessSet dv w s) = sent s
     \<and> inFlight (brightnessSet dv w s) = inFlight s"
  by (simp add: rotationSpeedSet_def brightnessSet_def arrayGet_Undefined sendCommand_def Let_def)

theorem out_of_table_set_is_noop_witness:
  "\<not> isIndex (length fanCommands) (ratDiv (Fin 100) fanStep)
   \<and> \<not> isIndex (length lightCommands) (ratDiv (Fin 108) (Fin 12))
   \<and> ratDiv (Fin 108) (Fin 12) = Fin 9
   \<and> commandQueue (rotationSpeedSet ratDiv (Fin 100) (constructor cfg0)) = []
   \<and> sent (brightnessSet ratDiv (Fin 108) (constructor cfg0)) = []"
proof -
  have h1: "\<not> isIndex (length fanCommands) (ratDiv (Fin 100) fanStep)" by code_simp
  have h2: "\<not> isIndex (length lightCommands) (ratDiv (Fin 108) (Fin 12))" by code_simp
  have h3: "ratDiv (Fin 108) (Fin 12) = Fin 9" by code_simp
  have q: "commandQueue (constructor cfg0) = []" "sent (constructor cfg0) = []"
    by (simp_all add: constructor_def)
  show ?thesis
    using out_of_table_set_is_noop [of ratDiv "Fin 100" "Fin 108" "constructor cfg0"] h1 h2 h3 q by simp
qed

end
